theory Spec2Isabelle
  imports Complex_Main
begin

section \<open>Data model\<close>

text \<open>
  A product record as the handlers read and write it: \<open>product.id\<close>, \<open>product.name\<close>,
  \<open>product.price\<close> and \<open>product.availability\<close>. The identifier is written \<open>id'\<close>
  because \<open>id\<close> is the identity function of HOL.
\<close>

record product =
  id' :: int
  name :: string
  price :: rat
  availability :: bool

text \<open>
  \<open>req.body\<close> after JSON parsing: the fields of the model that it may carry. Each
  may be absent (\<open>None\<close> is JavaScript's \<open>undefined\<close>); a field that is present
  carries a value of its documented type. No route removes a field from the body,
  so an id in it reaches the handler.
\<close>

record json_body =
  body_id :: "int option"
  body_name :: "string option"
  body_price :: "rat option"
  body_availability :: "bool option"

text \<open>
  A request as a handler sees it: \<open>req.params.id\<close>, read as the integer that the
  route's \<open>isInt\<close> rule has accepted, and \<open>req.body\<close>.
\<close>

record request =
  params_id :: int
  body :: json_body

text \<open>
  The JSON payloads that are sent: \<open>{data: product}\<close>, \<open>{data: products}\<close>,
  \<open>{data: 'text'}\<close>, \<open>{error: 'text'}\<close> and the itemized \<open>{errors: [...]}\<close> of the
  validation layer; and the response with its status code.
\<close>

record field_error =
  field :: string
  message :: string

datatype payload =
    Data product
  | DataList "product list"
  | DataText string
  | ErrorText string
  | ErrorList "field_error list"

record response =
  status :: nat
  json :: payload

section \<open>Persistence layer\<close>

text \<open>
  The statements that write to the product table: an \<open>INSERT\<close>, an \<open>UPDATE\<close> or a
  \<open>DELETE\<close> that the persistence layer sends to the database.
\<close>

datatype db_write = Insert_row | Update_row | Delete_row

text \<open>
  The database behind the model class: the rows of the product table in insertion
  order, the next value of the sequence that generates identifiers, and the log of
  the writes carried out so far.
\<close>

record store =
  rows :: "product list"
  next_id :: int
  writes :: "db_write list"

text \<open>The id column of the table, in row order.\<close>

definition ids :: "store \<Rightarrow> int list" where
  "ids st = map id' (rows st)"

text \<open>
  Modelled from the spec: the model class \<open>models/Product\<close> and the mapper behind it
  are not among the sources. \<open>Product.findByPk(id)\<close> fetches the record with the given
  primary key, or nothing when no record has it.
\<close>

definition findByPk :: "int \<Rightarrow> store \<Rightarrow> product option" where
  "findByPk k st = find (\<lambda>r. id' r = k) (rows st)"

text \<open>
  Modelled from the spec: \<open>Product.findAll\<close> with \<open>order: [['id', 'DESC']]\<close> fetches all
  products ordered by id descending.
\<close>

definition findAll_desc :: "store \<Rightarrow> product list" where
  "findAll_desc st = rev (sort_key id' (rows st))"

text \<open>
  Modelled from the spec: \<open>product.save()\<close> persists the instance: the stored record
  with the instance's primary key takes the instance's values. The mapper sends the
  \<open>UPDATE\<close> only when a value of the instance differs from what is stored; an
  instance without a change is not written.
\<close>

definition product_save :: "product \<Rightarrow> store \<Rightarrow> store" where
  "product_save p st =
     (if findByPk (id' p) st = Some p then st
      else st\<lparr>rows := map (\<lambda>r. if id' r = id' p then p else r) (rows st),
              writes := writes st @ [Update_row]\<rparr>)"

text \<open>
  Modelled from the spec: \<open>product.destroy()\<close> removes the record permanently, with
  one \<open>DELETE\<close>.
\<close>

definition product_destroy :: "product \<Rightarrow> store \<Rightarrow> store" where
  "product_destroy p st =
     st\<lparr>rows := filter (\<lambda>r. id' r \<noteq> id' p) (rows st),
        writes := writes st @ [Delete_row]\<rparr>"

text \<open>
  Modelled from the spec: the values of a body set on a fetched record. The mutable
  fields (name, price, availability) that the body carries overwrite those of the
  record; the primary key is immutable, so an id in the body is not taken.
\<close>

definition set_values :: "json_body \<Rightarrow> product \<Rightarrow> product" where
  "set_values b p =
     p\<lparr>name := (case body_name b of None \<Rightarrow> name p | Some n \<Rightarrow> n),
       price := (case body_price b of None \<Rightarrow> price p | Some v \<Rightarrow> v),
       availability :=
         (case body_availability b of None \<Rightarrow> availability p | Some a \<Rightarrow> a)\<rparr>"

text \<open>
  Modelled from the spec: \<open>product.update(values)\<close> sets the values and persists the
  record in the same call. As with \<open>save\<close>, the \<open>UPDATE\<close> is sent only when a value
  has changed.
\<close>

definition product_update :: "json_body \<Rightarrow> product \<Rightarrow> store \<Rightarrow> product \<times> store" where
  "product_update b p st =
     (let p1 = set_values b p
      in if p1 = p then (p1, st)
         else (p1, st\<lparr>rows := map (\<lambda>r. if id' r = id' p then p1 else r) (rows st),
                      writes := writes st @ [Update_row]\<rparr>))"

text \<open>
  A write that the storage refuses: a required field of the record is missing, or
  the primary key is taken. The handlers do not catch it.
\<close>

datatype db_error = ConstraintViolation string

text \<open>
  Modelled from the spec: \<open>Product.create(values)\<close> constructs and persists a new
  record from the body fields, with one \<open>INSERT\<close>. Every field of the model that the
  body carries is the record's value, the id among them; an id that the body does
  not carry is generated by the storage, which takes the next value of its
  sequence. Name and price are required; availability defaults to true. The primary
  key is unique: an id that a stored record has is refused, and the value taken
  from the sequence stays taken.
\<close>

definition Product_create ::
  "json_body \<Rightarrow> store \<Rightarrow> (db_error \<times> store) + (product \<times> store)" where
  "Product_create b st =
     (case body_name b of
        None \<Rightarrow> Inl (ConstraintViolation ''name'', st)
      | Some n \<Rightarrow>
         (case body_price b of
            None \<Rightarrow> Inl (ConstraintViolation ''price'', st)
          | Some v \<Rightarrow>
             (let k = (case body_id b of None \<Rightarrow> next_id st | Some i \<Rightarrow> i);
                  st1 = (case body_id b of
                           None \<Rightarrow> st\<lparr>next_id := next_id st + 1\<rparr>
                         | Some i \<Rightarrow> st);
                  p = \<lparr>id' = k, name = n, price = v,
                       availability =
                         (case body_availability b of None \<Rightarrow> True | Some a \<Rightarrow> a)\<rparr>
              in if k \<in> set (ids st) then Inl (ConstraintViolation ''id'', st1)
                 else Inr (p, st1\<lparr>rows := rows st @ [p],
                                 writes := writes st @ [Insert_row]\<rparr>))))"

section \<open>Request handlers\<close>

definition not_found :: response where
  "not_found = \<lparr>status = 404, json = ErrorText ''Producto no encontrado''\<rparr>"

text \<open>\<open>res.json\<close> without a preceding \<open>res.status\<close> answers with status 200.\<close>

definition ok :: "payload \<Rightarrow> response" where
  "ok v = \<lparr>status = 200, json = v\<rparr>"

definition getProducts :: "request \<Rightarrow> store \<Rightarrow> store \<times> response" where
  "getProducts req st = (st, ok (DataList (findAll_desc st)))"

definition getProductById :: "request \<Rightarrow> store \<Rightarrow> store \<times> response" where
  "getProductById req st =
     (case findByPk (params_id req) st of
        None \<Rightarrow> (st, not_found)
      | Some product \<Rightarrow> (st, ok (Data product)))"

definition createProduct ::
  "request \<Rightarrow> store \<Rightarrow> (db_error \<times> store) + (store \<times> response)" where
  "createProduct req st =
     (case Product_create (body req) st of
        Inl failure \<Rightarrow> Inl failure
      | Inr (product, st1) \<Rightarrow> Inr (st1, \<lparr>status = 201, json = Data product\<rparr>))"

definition updateProduct :: "request \<Rightarrow> store \<Rightarrow> store \<times> response" where
  "updateProduct req st =
     (case findByPk (params_id req) st of
        None \<Rightarrow> (st, not_found)
      | Some product \<Rightarrow>
          (case product_update (body req) product st of
             (product1, st1) \<Rightarrow> (product_save product1 st1, ok (Data product1))))"

definition updateAvailability :: "request \<Rightarrow> store \<Rightarrow> store \<times> response" where
  "updateAvailability req st =
     (case findByPk (params_id req) st of
        None \<Rightarrow> (st, not_found)
      | Some product \<Rightarrow>
          (let product1 = product\<lparr>availability := \<not> availability product\<rparr>
           in (product_save product1 st, ok (Data product1))))"

definition deleteProduct :: "request \<Rightarrow> store \<Rightarrow> store \<times> response" where
  "deleteProduct req st =
     (case findByPk (params_id req) st of
        None \<Rightarrow> (st, not_found)
      | Some product \<Rightarrow> (product_destroy product st, ok (DataText ''Producto Eliminado'')))"

section \<open>Validation layer and the create route\<close>

text \<open>
  The validators of the create route work on the text of the field value: a missing
  field reads as the empty text, a text as itself, and a number as the text the
  runtime's number-to-text conversion gives, which is a parameter \<open>S\<close> here.
\<close>

definition toString_name :: "string option \<Rightarrow> string" where
  "toString_name v = (case v of None \<Rightarrow> [] | Some s \<Rightarrow> s)"

definition toString_price :: "(rat \<Rightarrow> string) \<Rightarrow> rat option \<Rightarrow> string" where
  "toString_price S v = (case v of None \<Rightarrow> [] | Some x \<Rightarrow> S x)"

definition notEmpty :: "string \<Rightarrow> bool" where
  "notEmpty s = (s \<noteq> [])"

definition is_digit :: "char \<Rightarrow> bool" where
  "is_digit c = (c \<in> set ''0123456789'')"

text \<open>
  \<open>isNumeric\<close>: an optional sign, then either digits only or digits, a point and
  digits; at least one digit at the end.
\<close>

definition unsigned_numeric :: "string \<Rightarrow> bool" where
  "unsigned_numeric s =
     (case dropWhile is_digit s of
        [] \<Rightarrow> s \<noteq> []
      | c # r \<Rightarrow> c = CHR ''.'' \<and> r \<noteq> [] \<and> list_all is_digit r)"

definition isNumeric :: "string \<Rightarrow> bool" where
  "isNumeric s =
     (case s of
        [] \<Rightarrow> False
      | c # r \<Rightarrow> if c = CHR ''+'' \<or> c = CHR ''-'' then unsigned_numeric r
                 else unsigned_numeric s)"

text \<open>The custom rule of the price, \<open>value => value > 0\<close>; a missing value fails it.\<close>

definition custom_price :: "rat option \<Rightarrow> bool" where
  "custom_price v = (case v of None \<Rightarrow> False | Some x \<Rightarrow> x > 0)"

text \<open>One rule of a chain with its \<open>withMessage\<close>: a failed rule adds its error.\<close>

definition rule :: "string \<Rightarrow> bool \<Rightarrow> string \<Rightarrow> field_error list" where
  "rule f passed msg = (if passed then [] else [\<lparr>field = f, message = msg\<rparr>])"

text \<open>The two chains of \<open>router.post\<close>; every rule of a chain runs.\<close>

definition body_name_chain :: "json_body \<Rightarrow> field_error list" where
  "body_name_chain b =
     rule ''name'' (notEmpty (toString_name (body_name b)))
       ''El campo nombre no puede estar vacio''"

definition body_price_chain :: "(rat \<Rightarrow> string) \<Rightarrow> json_body \<Rightarrow> field_error list" where
  "body_price_chain S b =
     rule ''price'' (isNumeric (toString_price S (body_price b))) ''Valor no valido''
     @ rule ''price'' (notEmpty (toString_price S (body_price b)))
         ''El campo precio no puede estar vacio''
     @ rule ''price'' (custom_price (body_price b)) ''Precio no valido''"

text \<open>
  Modelled from the spec: the middleware \<open>handleInputErrors\<close> is not among the sources.
  If any rule failed, the request ends with status 400 and the list of
  \<open>{field, message}\<close> errors before the handler executes; otherwise it passes
  through unchanged to the handler.
\<close>

definition handleInputErrors ::
  "field_error list \<Rightarrow> (store \<Rightarrow> (db_error \<times> store) + (store \<times> response)) \<Rightarrow> store
   \<Rightarrow> (db_error \<times> store) + (store \<times> response)" where
  "handleInputErrors errors next_handler st =
     (if errors = [] then next_handler st
      else Inr (st, \<lparr>status = 400, json = ErrorList errors\<rparr>))"

definition router_post ::
  "(rat \<Rightarrow> string) \<Rightarrow> request \<Rightarrow> store
   \<Rightarrow> (db_error \<times> store) + (store \<times> response)" where
  "router_post S req st =
     handleInputErrors (body_name_chain (body req) @ body_price_chain S (body req))
       (createProduct req) st"

section \<open>Sequences of requests\<close>

datatype operation =
    GET_all request
  | GET request
  | POST request
  | PUT request
  | PATCH request
  | DELETE request

text \<open>
  The store after the handler of a request has run, also when the storage has
  refused the write.
\<close>

fun step :: "operation \<Rightarrow> store \<Rightarrow> store" where
  "step (GET_all req) st = fst (getProducts req st)"
| "step (GET req) st = fst (getProductById req st)"
| "step (POST req) st =
     (case createProduct req st of Inl (e, st1) \<Rightarrow> st1 | Inr (st1, res) \<Rightarrow> st1)"
| "step (PUT req) st = fst (updateProduct req st)"
| "step (PATCH req) st = fst (updateAvailability req st)"
| "step (DELETE req) st = fst (deleteProduct req st)"

fun run :: "operation list \<Rightarrow> store \<Rightarrow> store" where
  "run [] st = st"
| "run (op # ops) st = run ops (step op st)"

text \<open>Every identifier in the table is below the next one the storage hands out.\<close>

definition ids_below_next :: "store \<Rightarrow> bool" where
  "ids_below_next st = list_all (\<lambda>k. k < next_id st) (ids st)"

text \<open>A request that is not a create, or a create whose body carries no id.\<close>

fun carries_no_id :: "operation \<Rightarrow> bool" where
  "carries_no_id (POST req) = (body_id (body req) = None)"
| "carries_no_id other = True"

section \<open>Server shell\<close>

subsection \<open>CORS policy\<close>

text \<open>The two environment values; a variable that is not set is \<open>None\<close>.\<close>

record environment =
  FRONTEND_URL :: "string option"
  API_URL :: "string option"

text \<open>\<open>Boolean(v)\<close> on a text that may be undefined: false when undefined or empty.\<close>

definition truthy :: "string option \<Rightarrow> bool" where
  "truthy v = (case v of None \<Rightarrow> False | Some s \<Rightarrow> s \<noteq> [])"

definition allowedOrigins :: "environment \<Rightarrow> string option list" where
  "allowedOrigins e = filter truthy [FRONTEND_URL e, API_URL e]"

text \<open>\<open>callback(null, true)\<close> or \<open>callback(new Error(...))\<close>.\<close>

datatype cors_decision = Allowed | Refused string

definition corsOptions_origin :: "environment \<Rightarrow> string option \<Rightarrow> cors_decision" where
  "corsOptions_origin e origin =
     (if \<not> truthy origin \<or> origin \<in> set (allowedOrigins e) then Allowed
      else Refused ''Error de CORS'')"

subsection \<open>Connecting to the database\<close>

datatype js_error = JsError string

text \<open>A text with the styles of the \<open>colors\<close> package applied to it.\<close>

datatype styled = Plain string | Red styled | Bold styled

fun text_of :: "styled \<Rightarrow> string" where
  "text_of (Plain s) = s"
| "text_of (Red t) = text_of t"
| "text_of (Bold t) = text_of t"

definition colors_red_bold :: "string \<Rightarrow> styled" where
  "colors_red_bold s = Red (Bold (Plain s))"

text \<open>
  What \<open>connectDB\<close> does to the outside: calls of \<open>db.authenticate\<close> and \<open>db.sync\<close>,
  and lines written with \<open>console.log\<close>. A promise here is the trace of its
  events and how it settled: rejected with an error or resolved with a value.
\<close>

datatype event = Authenticate | Sync | ConsoleLog styled

type_synonym 'a promise = "event list \<times> (js_error + 'a)"

text \<open>
  The database session: how the awaited \<open>db.authenticate()\<close> ends. \<open>db.sync()\<close> is
  called without \<open>await\<close>, so \<open>connectDB\<close> only starts it.
\<close>

record database =
  authenticate :: "js_error + unit"

definition await_authenticate :: "database \<Rightarrow> unit promise" where
  "await_authenticate db = ([Authenticate], authenticate db)"

definition call_sync :: "unit promise" where
  "call_sync = ([Sync], Inr ())"

definition console_log :: "styled \<Rightarrow> unit promise" where
  "console_log t = ([ConsoleLog t], Inr ())"

text \<open>Two statements in a row: the second runs only if the first did not throw.\<close>

definition and_then :: "unit promise \<Rightarrow> unit promise \<Rightarrow> unit promise" where
  "and_then a b =
     (case snd a of Inl e \<Rightarrow> a | Inr u \<Rightarrow> (fst a @ fst b, snd b))"

text \<open>\<open>try { a } catch (error) { h error }\<close>.\<close>

definition try_catch :: "unit promise \<Rightarrow> (js_error \<Rightarrow> unit promise) \<Rightarrow> unit promise" where
  "try_catch a h =
     (case snd a of Inl e \<Rightarrow> (fst a @ fst (h e), snd (h e)) | Inr u \<Rightarrow> a)"

definition connectDB :: "database \<Rightarrow> unit promise" where
  "connectDB db =
     try_catch (and_then (await_authenticate db) call_sync)
       (\<lambda>error. console_log
          (colors_red_bold ''Hubo un error al conectarse a la base de datos''))"

section \<open>A small store for concrete checks\<close>

definition monitor :: product where
  "monitor = \<lparr>id' = 1, name = ''Monitor'', price = 300, availability = True\<rparr>"

definition shop :: store where
  "shop = \<lparr>rows = [monitor], next_id = 2, writes = [Insert_row]\<rparr>"

definition put_body :: json_body where
  "put_body = \<lparr>body_id = None, body_name = Some ''Monitor curvo'', body_price = Some 299,
                body_availability = Some False\<rparr>"


definition keyboard_body :: json_body where
  "keyboard_body = \<lparr>body_id = Some 1, body_name = Some ''Teclado'', body_price = Some 50,
                     body_availability = Some False\<rparr>"

definition no_body :: json_body where
  "no_body = \<lparr>body_id = None, body_name = None, body_price = None,
               body_availability = None\<rparr>"

definition request_for :: "int \<Rightarrow> request" where
  "request_for k = \<lparr>params_id = k, body = no_body\<rparr>"

section \<open>Facts about the persistence layer\<close>

lemma findByPk_id: "findByPk k st = Some p \<Longrightarrow> id' p = k"
  by (auto simp: findByPk_def find_Some_iff)

lemma find_replace:
  "find (\<lambda>r. id' r = k) rs = Some q \<Longrightarrow> id' p = k \<Longrightarrow>
   find (\<lambda>r. id' r = k) (map (\<lambda>r. if id' r = k then p else r) rs) = Some p"
  by (induction rs) (auto split: if_splits)

lemma findByPk_save:
  "findByPk k st = Some q \<Longrightarrow> id' p = k \<Longrightarrow> findByPk k (product_save p st) = Some p"
  by (simp add: findByPk_def product_save_def find_replace)

lemma find_replace_other:
  "k' \<noteq> id' p \<Longrightarrow>
   find (\<lambda>r. id' r = k') (map (\<lambda>r. if id' r = id' p then p else r) rs) =
   find (\<lambda>r. id' r = k') rs"
  by (induction rs) auto

lemma findByPk_save_other:
  "k' \<noteq> id' p \<Longrightarrow> findByPk k' (product_save p st) = findByPk k' st"
  by (simp add: findByPk_def product_save_def find_replace_other)

lemma find_filter_removed:
  "find (\<lambda>r. id' r = k) (filter (\<lambda>r. id' r \<noteq> k) rs) = None"
  by (induction rs) auto

lemma findByPk_destroy:
  "id' p = k \<Longrightarrow> findByPk k (product_destroy p st) = None"
  by (auto simp: findByPk_def product_destroy_def find_filter_removed)

lemma shop_has_monitor: "findByPk 1 shop = Some monitor"
  by (simp add: findByPk_def shop_def monitor_def)

lemma ids_replace:
  "id' q = k \<Longrightarrow> map id' (map (\<lambda>r. if id' r = k then q else r) rs) = map id' rs"
  by (induction rs) auto

lemma ids_remove:
  "map id' (filter (\<lambda>r. id' r \<noteq> k) rs) = filter (\<lambda>x. x \<noteq> k) (map id' rs)"
  by (induction rs) auto

lemma find_appended:
  "k \<notin> set (map id' rs) \<Longrightarrow> id' p = k \<Longrightarrow> find (\<lambda>r. id' r = k) (rs @ [p]) = Some p"
  by (induction rs) auto


lemma set_values_id: "id' (set_values b p) = id' p"
  by (simp add: set_values_def)

section \<open>Facts about the validation layer\<close>

lemma rule_failed: "\<not> passed \<Longrightarrow> rule f passed msg = [\<lparr>field = f, message = msg\<rparr>]"
  by (simp add: rule_def)

lemma price_chain_not_positive:
  "body_price b = Some x \<Longrightarrow> x \<le> 0 \<Longrightarrow>
   \<lparr>field = ''price'', message = ''Precio no valido''\<rparr> \<in> set (body_price_chain S b)"
  by (simp add: body_price_chain_def custom_price_def rule_failed)

lemma name_chain_empty:
  "body_name b = Some [] \<Longrightarrow>
   body_name_chain b = [\<lparr>field = ''name'', message = ''El campo nombre no puede estar vacio''\<rparr>]"
  by (simp add: body_name_chain_def notEmpty_def toString_name_def rule_failed)

section \<open>Facts about the write log\<close>




lemma update_result:
  assumes "findByPk (params_id req) st = Some p"
  shows "updateProduct req st =
           (snd (product_update (body req) p st), ok (Data (set_values (body req) p)))"
proof -
  let ?q = "set_values (body req) p"
  have k: "id' p = params_id req" using assms by (rule findByPk_id)
  have q: "id' ?q = params_id req" using k by (simp add: set_values_id)
  have u: "product_update (body req) p st = (?q, snd (product_update (body req) p st))"
    by (simp add: product_update_def Let_def)
  have "findByPk (params_id req) (snd (product_update (body req) p st)) = Some ?q"
  proof (cases "?q = p")
    case True
    then show ?thesis using assms by (simp add: product_update_def Let_def)
  next
    case False
    then show ?thesis using assms q k
      by (simp add: product_update_def Let_def findByPk_def find_replace)
  qed
  then have sv: "product_save ?q (snd (product_update (body req) p st))
             = snd (product_update (body req) p st)"
    using q by (simp add: product_save_def)
  have "updateProduct req st =
          (case product_update (body req) p st of
             (product1, st1) \<Rightarrow> (product_save product1 st1, ok (Data product1)))"
    using assms by (simp add: updateProduct_def)
  also have "\<dots> = (product_save ?q (snd (product_update (body req) p st)), ok (Data ?q))"
    by (subst u) simp
  finally show ?thesis using sv by simp
qed


section \<open>Facts about sequences of requests\<close>

lemma update_ids: "ids (fst (updateProduct req st)) = ids st"
proof (cases "findByPk (params_id req) st")
  case None
  then show ?thesis by (simp add: updateProduct_def)
next
  case (Some p)
  have "ids (snd (product_update (body req) p st)) = ids st"
    by (simp add: product_update_def Let_def ids_def ids_replace set_values_id)
  then show ?thesis using update_result [OF Some] by simp
qed

lemma update_next_id: "next_id (fst (updateProduct req st)) = next_id st"
proof (cases "findByPk (params_id req) st")
  case None
  then show ?thesis by (simp add: updateProduct_def)
next
  case (Some p)
  have "next_id (snd (product_update (body req) p st)) = next_id st"
    by (simp add: product_update_def Let_def)
  then show ?thesis using update_result [OF Some] by simp
qed

lemma toggle_ids: "ids (fst (updateAvailability req st)) = ids st"
  by (auto simp: updateAvailability_def product_save_def Let_def ids_def ids_replace
      split: option.splits)

lemma toggle_next_id: "next_id (fst (updateAvailability req st)) = next_id st"
  by (auto simp: updateAvailability_def product_save_def Let_def split: option.splits)

lemma delete_ids:
  "ids (fst (deleteProduct req st)) = ids st
   \<or> (\<exists>k. ids (fst (deleteProduct req st)) = filter (\<lambda>x. x \<noteq> k) (ids st))"
  by (auto simp: deleteProduct_def product_destroy_def ids_def ids_remove split: option.splits)

lemma delete_next_id: "next_id (fst (deleteProduct req st)) = next_id st"
  by (auto simp: deleteProduct_def product_destroy_def split: option.splits)

lemma create_refused_ids: "createProduct req st = Inl (e, st1) \<Longrightarrow> ids st1 = ids st"
  by (auto simp: createProduct_def Product_create_def Let_def ids_def
      split: option.splits if_splits)

lemma create_ids:
  "createProduct req st = Inr (st1, res) \<Longrightarrow>
   \<exists>q. res = \<lparr>status = 201, json = Data q\<rparr>
     \<and> id' q = (case body_id (body req) of None \<Rightarrow> next_id st | Some i \<Rightarrow> i)
     \<and> id' q \<notin> set (ids st) \<and> ids st1 = ids st @ [id' q]"
  by (auto simp: createProduct_def Product_create_def Let_def ids_def
      split: option.splits if_splits)

lemma create_generated:
  assumes "body_id (body req) = None" and "ids_below_next st"
  shows "\<exists>st1 res. createProduct req st = Inl (ConstraintViolation ''name'', st)
           \<or> createProduct req st = Inl (ConstraintViolation ''price'', st)
           \<or> (createProduct req st = Inr (st1, res)
               \<and> ids st1 = ids st @ [next_id st] \<and> next_id st1 = next_id st + 1)"
proof -
  have "next_id st \<notin> set (ids st)"
    using assms(2) by (auto simp: ids_below_next_def list_all_iff)
  then show ?thesis using assms(1)
    by (auto simp: createProduct_def Product_create_def Let_def ids_def split: option.splits)
qed

lemma step_shape:
  "ids (step op st) = ids st
   \<or> (\<exists>k. ids (step op st) = filter (\<lambda>x. x \<noteq> k) (ids st))
   \<or> (\<exists>k. k \<notin> set (ids st) \<and> ids (step op st) = ids st @ [k])"
proof (cases op)
  case (GET_all req)
  then show ?thesis by (simp add: getProducts_def)
next
  case (GET req)
  then show ?thesis by (simp add: getProductById_def split: option.splits)
next
  case (POST req)
  show ?thesis
  proof (cases "createProduct req st")
    case (Inl f)
    obtain e st1 where "f = (e, st1)" by (cases f)
    with Inl POST create_refused_ids [of req st e st1] show ?thesis by simp
  next
    case (Inr r)
    obtain st1 res where "r = (st1, res)" by (cases r)
    with Inr POST create_ids [of req st st1 res] show ?thesis by auto
  qed
next
  case (PUT req)
  then show ?thesis by (simp add: update_ids)
next
  case (PATCH req)
  then show ?thesis by (simp add: toggle_ids)
next
  case (DELETE req)
  then show ?thesis using delete_ids [of req st] by auto
qed

lemma step_distinct: "distinct (ids st) \<Longrightarrow> distinct (ids (step op st))"
  using step_shape [of op st] by auto

lemma run_distinct: "distinct (ids st) \<Longrightarrow> distinct (ids (run ops st))"
  by (induction ops arbitrary: st) (auto simp: step_distinct)

lemma step_shape_generated:
  assumes "carries_no_id op" and "ids_below_next st"
  shows "(ids (step op st) = ids st \<and> next_id (step op st) = next_id st)
   \<or> (\<exists>k. ids (step op st) = filter (\<lambda>x. x \<noteq> k) (ids st) \<and> next_id (step op st) = next_id st)
   \<or> (ids (step op st) = ids st @ [next_id st] \<and> next_id (step op st) = next_id st + 1)"
proof (cases op)
  case (GET_all req)
  then show ?thesis by (simp add: getProducts_def)
next
  case (GET req)
  then show ?thesis by (simp add: getProductById_def split: option.splits)
next
  case (POST req)
  then have "body_id (body req) = None" using assms(1) by simp
  from create_generated [OF this assms(2)] POST show ?thesis by auto
next
  case (PUT req)
  then show ?thesis by (simp add: update_ids update_next_id)
next
  case (PATCH req)
  then show ?thesis by (simp add: toggle_ids toggle_next_id)
next
  case (DELETE req)
  then show ?thesis using delete_ids [of req st] by (auto simp: delete_next_id)
qed

lemma run_snoc: "run (ops @ [op]) st = step op (run ops st)"
  by (induction ops arbitrary: st) auto

lemma run_append: "run (xs @ ys) st = run ys (run xs st)"
  by (induction xs arbitrary: st) auto

lemma run_ids:
  "ids_below_next st \<Longrightarrow> list_all carries_no_id ops \<Longrightarrow>
   \<exists>P new. ids (run ops st) = filter P (ids st) @ new
     \<and> (\<forall>k\<in>set new. next_id st \<le> k \<and> k < next_id (run ops st))
     \<and> distinct new
     \<and> next_id st \<le> next_id (run ops st)
     \<and> ids_below_next (run ops st)"
proof (induction ops rule: rev_induct)
  case Nil
  show ?case
    by (rule exI [of _ "\<lambda>k. True"], rule exI [of _ "[]"]) (use Nil in simp)
next
  case (snoc op ops)
  let ?c = "run ops st"
  from snoc.prems(2) have no: "list_all carries_no_id ops" "carries_no_id op" by simp_all
  from snoc.IH [OF snoc.prems(1) no(1)] obtain P new where
    sh: "ids ?c = filter P (ids st) @ new"
    and bd: "\<forall>k\<in>set new. next_id st \<le> k \<and> k < next_id ?c"
    and di: "distinct new"
    and mo: "next_id st \<le> next_id ?c"
    and iv: "ids_below_next ?c"
    by blast
  have r: "run (ops @ [op]) st = step op ?c" by (rule run_snoc)
  from step_shape_generated [OF no(2) iv] consider
    (same) "ids (step op ?c) = ids ?c" "next_id (step op ?c) = next_id ?c"
    | (removed) k where "ids (step op ?c) = filter (\<lambda>x. x \<noteq> k) (ids ?c)"
        "next_id (step op ?c) = next_id ?c"
    | (added) "ids (step op ?c) = ids ?c @ [next_id ?c]"
        "next_id (step op ?c) = next_id ?c + 1"
    by blast
  then show ?case
  proof cases
    case same
    then have "ids_below_next (step op ?c)" using iv by (simp add: ids_below_next_def)
    with same sh bd di mo show ?thesis unfolding r by auto
  next
    case removed
    have a: "ids (step op ?c) = filter (\<lambda>x. P x \<and> x \<noteq> k) (ids st) @ filter (\<lambda>x. x \<noteq> k) new"
      using removed(1) sh by (simp add: conj_commute)
    have b: "\<forall>j\<in>set (filter (\<lambda>x. x \<noteq> k) new). next_id st \<le> j \<and> j < next_id (step op ?c)"
      using bd removed(2) by simp
    have c: "distinct (filter (\<lambda>x. x \<noteq> k) new)" using di by simp
    have d: "ids_below_next (step op ?c)"
      using iv removed by (simp add: ids_below_next_def list_all_iff)
    from a b c d mo removed(2) show ?thesis unfolding r by metis
  next
    case added
    have a: "ids (step op ?c) = filter P (ids st) @ (new @ [next_id ?c])"
      using added(1) sh by simp
    have b: "\<forall>j\<in>set (new @ [next_id ?c]). next_id st \<le> j \<and> j < next_id (step op ?c)"
      using bd mo added(2) by auto
    have c: "distinct (new @ [next_id ?c])" using di bd by auto
    have d: "ids_below_next (step op ?c)"
      using iv added by (auto simp: ids_below_next_def list_all_iff)
    have e: "next_id st \<le> next_id (step op ?c)" using mo added(2) by simp
    from a b c d e show ?thesis unfolding r by metis
  qed
qed

lemma update_keeps_id:
  assumes "findByPk (params_id req) st = Some p"
  shows "\<exists>q. snd (updateProduct req st) = ok (Data q) \<and> id' q = id' p
           \<and> findByPk (params_id req) (fst (updateProduct req st)) = Some q"
proof -
  let ?q = "set_values (body req) p"
  have k: "id' p = params_id req" using assms by (rule findByPk_id)
  have "findByPk (params_id req) (snd (product_update (body req) p st)) = Some ?q"
  proof (cases "?q = p")
    case True
    then show ?thesis using assms by (simp add: product_update_def Let_def)
  next
    case False
    then show ?thesis using assms k
      by (simp add: product_update_def Let_def findByPk_def find_replace set_values_id)
  qed
  then show ?thesis using update_result [OF assms] by (simp add: set_values_id)
qed

lemma run_keeps_old_ids:
  assumes "ids_below_next st" and "list_all carries_no_id ops"
  shows "\<exists>new. ids (run ops st) = filter (\<lambda>k. k \<in> set (ids (run ops st))) (ids st) @ new
           \<and> (\<forall>k\<in>set new. next_id st \<le> k) \<and> distinct new"
proof -
  from run_ids [OF assms] obtain P new where
    sh: "ids (run ops st) = filter P (ids st) @ new"
    and bd: "\<forall>k\<in>set new. next_id st \<le> k \<and> k < next_id (run ops st)"
    and di: "distinct new"
    by blast
  have old: "\<forall>k\<in>set (ids st). k < next_id st"
    using assms(1) by (simp add: ids_below_next_def list_all_iff)
  have "filter (\<lambda>k. k \<in> set (ids (run ops st))) (ids st) = filter P (ids st)"
  proof (rule filter_cong [OF refl])
    fix k assume "k \<in> set (ids st)"
    then have "k \<notin> set new" using old bd by force
    then show "(k \<in> set (ids (run ops st))) = P k"
      using sh \<open>k \<in> set (ids st)\<close> by simp
  qed
  then show ?thesis using sh bd di by auto
qed

lemma created_id_is_fresh:
  assumes "ids_below_next st" and "list_all carries_no_id ops"
    and "body_id (body r) = None" and "createProduct r (run ops st) = Inr (st1, res)"
  shows "\<exists>q. res = \<lparr>status = 201, json = Data q\<rparr>
           \<and> (\<forall>n\<le>length ops. id' q \<notin> set (ids (run (take n ops) st)))"
proof -
  from create_ids [OF assms(4)] assms(3) obtain q where
    q: "res = \<lparr>status = 201, json = Data q\<rparr>" "id' q = next_id (run ops st)"
    by auto
  have "id' q \<notin> set (ids (run (take n ops) st))" for n
  proof -
    let ?m = "run (take n ops) st"
    have t: "list_all carries_no_id (take n ops)" "list_all carries_no_id (drop n ops)"
      using assms(2) append_take_drop_id [of n ops] list_all_append [of carries_no_id "take n ops" "drop n ops"]
      by simp_all
    from run_ids [OF assms(1) t(1)] have iv: "ids_below_next ?m" by blast
    have "run ops st = run (drop n ops) ?m"
      using run_append [of "take n ops" "drop n ops" st] by simp
    with run_ids [OF iv t(2)] have "next_id ?m \<le> next_id (run ops st)" by auto
    moreover have "\<forall>k\<in>set (ids ?m). k < next_id ?m"
      using iv by (simp add: ids_below_next_def list_all_iff)
    ultimately show ?thesis using q(2) by force
  qed
  then show ?thesis using q(1) by blast
qed

section \<open>Facts about the connection procedure\<close>

lemma connectDB_returns: "snd (connectDB db) = Inr ()"
  by (cases "authenticate db")
     (simp_all add: connectDB_def try_catch_def and_then_def await_authenticate_def
        console_log_def call_sync_def)

section \<open>Toggling availability\<close>

text \<open>
  C1. For every id that resolves to a stored record, two toggle requests in a row
  on that id (whatever their bodies) leave the record with its original
  availability; the record as a whole is the original one again.
\<close>

theorem toggle_twice_restores_availability:
  assumes "findByPk (params_id r1) st = Some p" and "params_id r2 = params_id r1"
  shows "map_option availability
           (findByPk (params_id r1) (fst (updateAvailability r2 (fst (updateAvailability r1 st)))))
         = Some (availability p)
       \<and> findByPk (params_id r1) (fst (updateAvailability r2 (fst (updateAvailability r1 st))))
         = Some p"
proof -
  let ?k = "params_id r1"
  let ?p1 = "p\<lparr>availability := \<not> availability p\<rparr>"
  have k: "id' p = ?k" using assms(1) by (rule findByPk_id)
  have s1: "fst (updateAvailability r1 st) = product_save ?p1 st"
    using assms(1) by (simp add: updateAvailability_def Let_def)
  have f1: "findByPk ?k (product_save ?p1 st) = Some ?p1"
    using assms(1) k by (simp add: findByPk_save)
  have s2: "fst (updateAvailability r2 (product_save ?p1 st))
            = product_save (?p1\<lparr>availability := \<not> availability ?p1\<rparr>) (product_save ?p1 st)"
    using f1 assms(2) by (simp add: updateAvailability_def Let_def)
  have undo: "?p1\<lparr>availability := \<not> availability ?p1\<rparr> = p" by simp
  have "findByPk ?k (product_save p (product_save ?p1 st)) = Some p"
    using f1 k by (rule findByPk_save)
  then show ?thesis using s1 s2 undo by simp
qed

theorem toggle_twice_restores_availability_witness:
  "findByPk (params_id (request_for 1)) shop = Some monitor
   \<and> params_id (request_for 1) = params_id (request_for 1)
   \<and> findByPk 1 (fst (updateAvailability (request_for 1)
        (fst (updateAvailability (request_for 1) shop)))) = Some monitor"
proof -
  have h: "findByPk (params_id (request_for 1)) shop = Some monitor"
    by (simp add: request_for_def shop_has_monitor)
  show ?thesis
    using h toggle_twice_restores_availability [OF h refl]
    by (simp add: request_for_def)
qed

text \<open>
  C2. For every stored product and every request body, the toggle sets the record's
  availability to the negation of the stored value, leaves name, price and id as
  they were, answers with the updated record, and does the same for any other
  body \<open>b\<close>; the record of any other id \<open>k'\<close> is left as it was.
\<close>

theorem toggle_negates_availability_only:
  assumes "findByPk (params_id req) st = Some p"
  shows "\<exists>q. findByPk (params_id req) (fst (updateAvailability req st)) = Some q
           \<and> snd (updateAvailability req st) = ok (Data q)
           \<and> availability q = (\<not> availability p)
           \<and> name q = name p \<and> price q = price p \<and> id' q = id' p
           \<and> updateAvailability (req\<lparr>body := b\<rparr>) st = updateAvailability req st
           \<and> (k' \<noteq> params_id req \<longrightarrow>
                findByPk k' (fst (updateAvailability req st)) = findByPk k' st)"
proof -
  let ?q = "p\<lparr>availability := \<not> availability p\<rparr>"
  have k: "id' p = params_id req" using assms by (rule findByPk_id)
  have "findByPk (params_id req) (product_save ?q st) = Some ?q"
    using assms k by (simp add: findByPk_save)
  moreover have "k' \<noteq> params_id req \<longrightarrow> findByPk k' (product_save ?q st) = findByPk k' st"
    using k by (simp add: findByPk_save_other)
  ultimately show ?thesis using assms by (simp add: updateAvailability_def Let_def)
qed

theorem toggle_negates_availability_only_witness:
  "findByPk (params_id (request_for 1)) shop = Some monitor
   \<and> findByPk 1 (fst (updateAvailability (request_for 1) shop))
       = Some (monitor\<lparr>availability := False\<rparr>)"
proof -
  have h: "findByPk (params_id (request_for 1)) shop = Some monitor"
    by (simp add: request_for_def shop_has_monitor)
  have a: "availability monitor" by (simp add: monitor_def)
  from toggle_negates_availability_only [OF h, of no_body]
  obtain q where q: "findByPk (params_id (request_for 1))
                       (fst (updateAvailability (request_for 1) shop)) = Some q"
      "availability q = (\<not> availability monitor)" "name q = name monitor"
      "price q = price monitor" "id' q = id' monitor"
    by blast
  then have "q = monitor\<lparr>availability := False\<rparr>" using a by simp
  then show ?thesis using h q(1) by (simp add: request_for_def)
qed

section \<open>Requests on an id without a record\<close>

text \<open>
  C3. For every integer id that references no stored record, get-by-id, the
  availability toggle and delete each answer 404 with an error field in the payload
  and leave the store (rows, next id and write log) unchanged.
\<close>

theorem missing_id_not_found:
  assumes "findByPk (params_id req) st = None"
  shows "getProductById req st = (st, \<lparr>status = 404, json = ErrorText ''Producto no encontrado''\<rparr>)
       \<and> updateAvailability req st = (st, \<lparr>status = 404, json = ErrorText ''Producto no encontrado''\<rparr>)
       \<and> deleteProduct req st = (st, \<lparr>status = 404, json = ErrorText ''Producto no encontrado''\<rparr>)"
  using assms by (simp add: getProductById_def updateAvailability_def deleteProduct_def not_found_def)

theorem missing_id_not_found_witness:
  "findByPk (params_id (request_for 7)) shop = None
   \<and> getProductById (request_for 7) shop
       = (shop, \<lparr>status = 404, json = ErrorText ''Producto no encontrado''\<rparr>)
   \<and> updateAvailability (request_for 7) shop
       = (shop, \<lparr>status = 404, json = ErrorText ''Producto no encontrado''\<rparr>)
   \<and> deleteProduct (request_for 7) shop
       = (shop, \<lparr>status = 404, json = ErrorText ''Producto no encontrado''\<rparr>)"
proof -
  have h: "findByPk (params_id (request_for 7)) shop = None"
    by (simp add: request_for_def findByPk_def shop_def monitor_def)
  show ?thesis using h missing_id_not_found [OF h] by simp
qed

section \<open>Rejected create requests\<close>

text \<open>
  C4. For every create request whose body has a price at or below zero or an empty
  name, the create route answers 400 with the itemized field errors of the two
  chains, among them the error of the rule that failed; the store is unchanged, and
  whatever handler \<open>h\<close> follows the middleware is not run. The conversion \<open>S\<close> of
  numbers to text is arbitrary.
\<close>

theorem invalid_create_rejected:
  assumes "(\<exists>x. body_price (body req) = Some x \<and> x \<le> 0) \<or> body_name (body req) = Some []"
  shows "router_post S req st =
           Inr (st, \<lparr>status = 400,
                     json = ErrorList (body_name_chain (body req) @ body_price_chain S (body req))\<rparr>)
       \<and> body_name_chain (body req) @ body_price_chain S (body req) \<noteq> []
       \<and> handleInputErrors (body_name_chain (body req) @ body_price_chain S (body req)) h st =
           Inr (st, \<lparr>status = 400,
                     json = ErrorList (body_name_chain (body req) @ body_price_chain S (body req))\<rparr>)
       \<and> ((\<exists>x. body_price (body req) = Some x \<and> x \<le> 0) \<longrightarrow>
            \<lparr>field = ''price'', message = ''Precio no valido''\<rparr>
              \<in> set (body_price_chain S (body req)))
       \<and> (body_name (body req) = Some [] \<longrightarrow>
            \<lparr>field = ''name'', message = ''El campo nombre no puede estar vacio''\<rparr>
              \<in> set (body_name_chain (body req)))"
proof -
  let ?errors = "body_name_chain (body req) @ body_price_chain S (body req)"
  have ne: "?errors \<noteq> []"
  proof (rule disjE [OF assms])
    assume "\<exists>x. body_price (body req) = Some x \<and> x \<le> 0"
    then obtain x where "body_price (body req) = Some x" "x \<le> 0" by blast
    then have "\<lparr>field = ''price'', message = ''Precio no valido''\<rparr>
                 \<in> set (body_price_chain S (body req))"
      by (rule price_chain_not_positive)
    then show ?thesis by auto
  next
    assume "body_name (body req) = Some []"
    then show ?thesis by (simp add: name_chain_empty)
  qed
  have stop: "\<And>g. handleInputErrors ?errors g st
                 = Inr (st, \<lparr>status = 400, json = ErrorList ?errors\<rparr>)"
    unfolding handleInputErrors_def using ne by (simp only: if_False)
  have p: "(\<exists>x. body_price (body req) = Some x \<and> x \<le> 0) \<longrightarrow>
            \<lparr>field = ''price'', message = ''Precio no valido''\<rparr>
              \<in> set (body_price_chain S (body req))"
    using price_chain_not_positive by blast
  have n: "body_name (body req) = Some [] \<longrightarrow>
            \<lparr>field = ''name'', message = ''El campo nombre no puede estar vacio''\<rparr>
              \<in> set (body_name_chain (body req))"
    by (simp add: name_chain_empty)
  show ?thesis using ne stop p n by (simp add: router_post_def)
qed

theorem invalid_create_rejected_witness:
  "body_price (body \<lparr>params_id = 0, body = put_body\<lparr>body_price := Some 0\<rparr>\<rparr>) = Some 0
   \<and> router_post (\<lambda>x. ''0'') \<lparr>params_id = 0, body = put_body\<lparr>body_price := Some 0\<rparr>\<rparr> shop
       = Inr (shop, \<lparr>status = 400,
                      json = ErrorList [\<lparr>field = ''price'', message = ''Precio no valido''\<rparr>]\<rparr>)
   \<and> body_name (body \<lparr>params_id = 0, body = put_body\<lparr>body_name := Some []\<rparr>\<rparr>) = Some []
   \<and> router_post (\<lambda>x. ''299'') \<lparr>params_id = 0, body = put_body\<lparr>body_name := Some []\<rparr>\<rparr> shop
       = Inr (shop, \<lparr>status = 400,
                      json = ErrorList [\<lparr>field = ''name'',
                                         message = ''El campo nombre no puede estar vacio''\<rparr>]\<rparr>)"
proof -
  let ?free = "\<lparr>params_id = 0, body = put_body\<lparr>body_price := Some 0\<rparr>\<rparr>"
  let ?anon = "\<lparr>params_id = 0, body = put_body\<lparr>body_name := Some []\<rparr>\<rparr>"
  have h1: "(\<exists>x. body_price (body ?free) = Some x \<and> x \<le> 0) \<or> body_name (body ?free) = Some []"
    by simp
  have h2: "(\<exists>x. body_price (body ?anon) = Some x \<and> x \<le> 0) \<or> body_name (body ?anon) = Some []"
    by simp
  have e1: "body_name_chain (body ?free) @ body_price_chain (\<lambda>x. ''0'') (body ?free)
           = [\<lparr>field = ''price'', message = ''Precio no valido''\<rparr>]"
    by (simp add: body_name_chain_def body_price_chain_def rule_def notEmpty_def
        toString_name_def toString_price_def custom_price_def isNumeric_def
        unsigned_numeric_def is_digit_def put_body_def)
  have e2: "body_name_chain (body ?anon) @ body_price_chain (\<lambda>x. ''299'') (body ?anon)
           = [\<lparr>field = ''name'', message = ''El campo nombre no puede estar vacio''\<rparr>]"
    by (simp add: body_name_chain_def body_price_chain_def rule_def notEmpty_def
        toString_name_def toString_price_def custom_price_def isNumeric_def
        unsigned_numeric_def is_digit_def put_body_def)
  show ?thesis
    using invalid_create_rejected [OF h1, of "\<lambda>x. ''0''" shop]
      invalid_create_rejected [OF h2, of "\<lambda>x. ''299''" shop] e1 e2
    by simp
qed

section \<open>Deleting\<close>

text \<open>
  C5. For every id that resolves to a stored record, delete answers 200 with the
  confirmation text (not the deleted object) and removes the record; a get-by-id
  on the same id afterwards answers 404.
\<close>

theorem delete_then_get_not_found:
  assumes "findByPk (params_id req) st = Some p" and "params_id req2 = params_id req"
  shows "snd (deleteProduct req st) = \<lparr>status = 200, json = DataText ''Producto Eliminado''\<rparr>
       \<and> findByPk (params_id req) (fst (deleteProduct req st)) = None
       \<and> p \<notin> set (rows (fst (deleteProduct req st)))
       \<and> getProductById req2 (fst (deleteProduct req st))
           = (fst (deleteProduct req st), \<lparr>status = 404, json = ErrorText ''Producto no encontrado''\<rparr>)"
proof -
  have k: "id' p = params_id req" using assms(1) by (rule findByPk_id)
  have d: "deleteProduct req st = (product_destroy p st, ok (DataText ''Producto Eliminado''))"
    using assms(1) by (simp add: deleteProduct_def)
  have gone: "findByPk (params_id req) (product_destroy p st) = None"
    using k by (rule findByPk_destroy)
  have "p \<notin> set (rows (product_destroy p st))" by (simp add: product_destroy_def)
  then show ?thesis using d gone assms(2)
    by (simp add: getProductById_def ok_def not_found_def)
qed

theorem delete_then_get_not_found_witness:
  "findByPk (params_id (request_for 1)) shop = Some monitor
   \<and> snd (deleteProduct (request_for 1) shop)
       = \<lparr>status = 200, json = DataText ''Producto Eliminado''\<rparr>
   \<and> status (snd (getProductById (request_for 1) (fst (deleteProduct (request_for 1) shop))))
       = 404"
proof -
  have h: "findByPk (params_id (request_for 1)) shop = Some monitor"
    by (simp add: request_for_def shop_has_monitor)
  show ?thesis using h delete_then_get_not_found [OF h refl] by simp
qed

section \<open>Writes per request\<close>




section \<open>Identifiers\<close>

text \<open>
  C7, as stated, fails: an id is reused. After the product with id 1 has been
  deleted, a create request whose body carries the id 1 passes the create route and
  is stored under the id 1, which was the id of another product.
\<close>

theorem deleted_id_is_reused:
  "findByPk 1 shop = Some monitor
   \<and> deleteProduct (request_for 1) shop
       = (\<lparr>rows = [], next_id = 2, writes = [Insert_row, Delete_row]\<rparr>,
          \<lparr>status = 200, json = DataText ''Producto Eliminado''\<rparr>)
   \<and> router_post (\<lambda>x. ''50'') \<lparr>params_id = 0, body = keyboard_body\<rparr>
        \<lparr>rows = [], next_id = 2, writes = [Insert_row, Delete_row]\<rparr>
       = Inr (\<lparr>rows = [\<lparr>id' = 1, name = ''Teclado'', price = 50, availability = False\<rparr>],
               next_id = 2, writes = [Insert_row, Delete_row, Insert_row]\<rparr>,
              \<lparr>status = 201,
                 json = Data \<lparr>id' = 1, name = ''Teclado'', price = 50, availability = False\<rparr>\<rparr>)
   \<and> id' monitor = id' \<lparr>id' = 1, name = ''Teclado'', price = 50, availability = False\<rparr>
   \<and> name monitor \<noteq> name \<lparr>id' = 1, name = ''Teclado'', price = 50, availability = False\<rparr>"
proof -
  have d: "deleteProduct (request_for 1) shop
       = (\<lparr>rows = [], next_id = 2, writes = [Insert_row, Delete_row]\<rparr>,
          \<lparr>status = 200, json = DataText ''Producto Eliminado''\<rparr>)"
    by (simp add: deleteProduct_def request_for_def shop_has_monitor product_destroy_def
        ok_def) (simp add: shop_def monitor_def)
  have e: "body_name_chain keyboard_body @ body_price_chain (\<lambda>x. ''50'') keyboard_body = []"
    by (simp add: body_name_chain_def body_price_chain_def rule_def notEmpty_def
        toString_name_def toString_price_def custom_price_def isNumeric_def
        unsigned_numeric_def is_digit_def keyboard_body_def)
  have c: "router_post (\<lambda>x. ''50'') \<lparr>params_id = 0, body = keyboard_body\<rparr>
        \<lparr>rows = [], next_id = 2, writes = [Insert_row, Delete_row]\<rparr>
       = Inr (\<lparr>rows = [\<lparr>id' = 1, name = ''Teclado'', price = 50, availability = False\<rparr>],
               next_id = 2, writes = [Insert_row, Delete_row, Insert_row]\<rparr>,
              \<lparr>status = 201,
                 json = Data \<lparr>id' = 1, name = ''Teclado'', price = 50, availability = False\<rparr>\<rparr>)"
    using e
    by (simp add: router_post_def handleInputErrors_def createProduct_def Product_create_def
        Let_def ids_def keyboard_body_def)
  show ?thesis using d c by (simp add: shop_has_monitor monitor_def)
qed

text \<open>
  C7, amended. The id of a stored product is never mutated: the full update, for any
  request body, also one that carries an id, leaves the id column as it was, and the
  record it answers with and stores has the id of the record it found; every
  request leaves the id column as it was, or removes the rows of one id, or appends
  one id that no stored record has; so stored records never come to share an id.
  Where no create body carries an id, ids are not reused: from a store whose ids lie
  below the next value of the sequence, after any sequence of such requests the id
  column is the initial one without the deleted ids, followed by pairwise different
  generated ids at or above the initial next value, and the id of a product created
  after the sequence occurs in none of the earlier states of the table.
\<close>

theorem id_never_mutated:
  "ids (fst (updateProduct req st)) = ids st
   \<and> (findByPk (params_id req) st = Some p \<longrightarrow>
        (\<exists>q. snd (updateProduct req st) = ok (Data q) \<and> id' q = id' p
           \<and> findByPk (params_id req) (fst (updateProduct req st)) = Some q))
   \<and> (ids (step op st) = ids st
        \<or> (\<exists>k. ids (step op st) = filter (\<lambda>x. x \<noteq> k) (ids st))
        \<or> (\<exists>k. k \<notin> set (ids st) \<and> ids (step op st) = ids st @ [k]))
   \<and> (distinct (ids st) \<longrightarrow> distinct (ids (run ops st)))
   \<and> (ids_below_next st \<and> list_all carries_no_id ops \<longrightarrow>
        (\<exists>new. ids (run ops st) = filter (\<lambda>k. k \<in> set (ids (run ops st))) (ids st) @ new
           \<and> (\<forall>k\<in>set new. next_id st \<le> k) \<and> distinct new)
      \<and> (body_id (body r) = None \<and> createProduct r (run ops st) = Inr (st1, res) \<longrightarrow>
           (\<exists>q. res = \<lparr>status = 201, json = Data q\<rparr>
              \<and> (\<forall>n\<le>length ops. id' q \<notin> set (ids (run (take n ops) st))))))"
proof -
  have a: "ids (fst (updateProduct req st)) = ids st" by (rule update_ids)
  have b: "findByPk (params_id req) st = Some p \<longrightarrow>
        (\<exists>q. snd (updateProduct req st) = ok (Data q) \<and> id' q = id' p
           \<and> findByPk (params_id req) (fst (updateProduct req st)) = Some q)"
    using update_keeps_id by blast
  have c: "ids (step op st) = ids st
        \<or> (\<exists>k. ids (step op st) = filter (\<lambda>x. x \<noteq> k) (ids st))
        \<or> (\<exists>k. k \<notin> set (ids st) \<and> ids (step op st) = ids st @ [k])"
    by (rule step_shape)
  have d: "distinct (ids st) \<longrightarrow> distinct (ids (run ops st))"
    using run_distinct by blast
  have e: "ids_below_next st \<and> list_all carries_no_id ops \<longrightarrow>
        (\<exists>new. ids (run ops st) = filter (\<lambda>k. k \<in> set (ids (run ops st))) (ids st) @ new
           \<and> (\<forall>k\<in>set new. next_id st \<le> k) \<and> distinct new)"
    using run_keeps_old_ids by blast
  have f: "ids_below_next st \<and> list_all carries_no_id ops \<longrightarrow>
        (body_id (body r) = None \<and> createProduct r (run ops st) = Inr (st1, res) \<longrightarrow>
           (\<exists>q. res = \<lparr>status = 201, json = Data q\<rparr>
              \<and> (\<forall>n\<le>length ops. id' q \<notin> set (ids (run (take n ops) st)))))"
    using created_id_is_fresh by blast
  from a b c d e f show ?thesis by blast
qed

theorem id_never_mutated_witness:
  "findByPk (params_id \<lparr>params_id = 1, body = keyboard_body\<rparr>) shop = Some monitor
   \<and> distinct (ids shop) \<and> ids_below_next shop
   \<and> list_all carries_no_id [PUT \<lparr>params_id = 1, body = keyboard_body\<rparr>, DELETE (request_for 1)]
   \<and> body_id (body \<lparr>params_id = 0, body = put_body\<rparr>) = None
   \<and> createProduct \<lparr>params_id = 0, body = put_body\<rparr>
        (run [PUT \<lparr>params_id = 1, body = keyboard_body\<rparr>, DELETE (request_for 1)] shop)
       = Inr (\<lparr>rows = [\<lparr>id' = 2, name = ''Monitor curvo'', price = 299, availability = False\<rparr>],
               next_id = 3,
               writes = [Insert_row, Update_row, Delete_row, Insert_row]\<rparr>,
              \<lparr>status = 201,
                 json = Data \<lparr>id' = 2, name = ''Monitor curvo'', price = 299,
                             availability = False\<rparr>\<rparr>)
   \<and> ids (fst (updateProduct \<lparr>params_id = 1, body = keyboard_body\<rparr> shop)) = [1]
   \<and> (\<exists>q. snd (updateProduct \<lparr>params_id = 1, body = keyboard_body\<rparr> shop) = ok (Data q)
          \<and> id' q = 1)
   \<and> distinct (ids (run [PUT \<lparr>params_id = 1, body = keyboard_body\<rparr>,
                          DELETE (request_for 1)] shop))
   \<and> (2::int) \<notin> set (ids (run (take 1 [PUT \<lparr>params_id = 1, body = keyboard_body\<rparr>,
                                         DELETE (request_for 1)]) shop))"
proof -
  let ?put = "\<lparr>params_id = 1, body = keyboard_body\<rparr>"
  let ?post = "\<lparr>params_id = 0, body = put_body\<rparr>"
  let ?ops = "[PUT ?put, DELETE (request_for 1)]"
  let ?st1 = "\<lparr>rows = [\<lparr>id' = 2, name = ''Monitor curvo'', price = 299, availability = False\<rparr>],
               next_id = 3,
               writes = [Insert_row, Update_row, Delete_row, Insert_row]\<rparr>"
  let ?res = "\<lparr>status = 201,
                 json = Data \<lparr>id' = 2, name = ''Monitor curvo'', price = 299,
                             availability = False\<rparr>\<rparr>"
  have h1: "ids_below_next shop"
    by (simp add: ids_below_next_def ids_def shop_def monitor_def)
  have h2: "findByPk (params_id ?put) shop = Some monitor"
    by (simp add: shop_has_monitor)
  have h4: "distinct (ids shop)" by (simp add: ids_def shop_def)
  have h5: "list_all carries_no_id ?ops" by simp
  have h6: "body_id (body ?post) = None" by (simp add: put_body_def)
  have u: "updateProduct ?put shop
           = (\<lparr>rows = [\<lparr>id' = 1, name = ''Teclado'', price = 50, availability = False\<rparr>],
               next_id = 2, writes = [Insert_row, Update_row]\<rparr>,
              ok (Data \<lparr>id' = 1, name = ''Teclado'', price = 50, availability = False\<rparr>))"
    using update_result [OF h2]
    by (simp add: product_update_def set_values_def Let_def keyboard_body_def)
       (simp add: shop_def monitor_def)
  have r: "run ?ops shop = \<lparr>rows = [], next_id = 2,
                             writes = [Insert_row, Update_row, Delete_row]\<rparr>"
    by (simp add: u) (simp add: deleteProduct_def product_destroy_def findByPk_def
        request_for_def)
  have h3: "createProduct ?post (run ?ops shop) = Inr (?st1, ?res)"
    unfolding r
    by (simp add: createProduct_def Product_create_def put_body_def Let_def ids_def)
  have i: "ids shop = [1]" "id' monitor = 1"
    by (simp_all add: ids_def shop_def monitor_def)
  note T = id_never_mutated [of ?put shop monitor "PUT ?put" ?ops ?post ?st1 ?res]
  have c1: "ids (fst (updateProduct ?put shop)) = ids shop" using T by blast
  have c2: "\<exists>q. snd (updateProduct ?put shop) = ok (Data q) \<and> id' q = id' monitor"
    using T h2 by blast
  have c3: "distinct (ids (run ?ops shop))" using T h4 by blast
  from T h1 h3 h5 h6 obtain q where
    q: "?res = \<lparr>status = 201, json = Data q\<rparr>"
      "\<forall>n\<le>length ?ops. id' q \<notin> set (ids (run (take n ?ops) shop))"
    by blast
  from q(1) have "id' q = 2" by auto
  moreover have "(1::nat) \<le> length ?ops" by simp
  ultimately have c4: "(2::int) \<notin> set (ids (run (take 1 ?ops) shop))"
    using q(2) by metis
  from h1 h2 h3 h4 h5 h6 c1 c2 c3 c4 i show ?thesis by simp
qed

section \<open>What create persists\<close>

text \<open>
  C8. The create handler hands the whole body to \<open>Product.create\<close>: for a body that
  carries an availability next to name and price, and an id or none (\<open>i\<close>), the
  record that is persisted and returned has the body's availability, name and
  price, and the body's id when it carries one (the generated one otherwise),
  provided no stored record has that id; a get-by-id on that id afterwards answers
  with this record. The create route removes nothing: with a non-empty name and a
  positive price whose text is numeric, the route gives what the handler gives.
\<close>

theorem create_persists_whole_body:
  assumes "body req = \<lparr>body_id = i, body_name = Some n, body_price = Some v,
                        body_availability = Some a\<rparr>"
    and "(case i of None \<Rightarrow> next_id st | Some k \<Rightarrow> k) \<notin> set (ids st)"
  shows "createProduct req st =
           Inr ((case i of None \<Rightarrow> st\<lparr>next_id := next_id st + 1\<rparr> | Some k \<Rightarrow> st)
                  \<lparr>rows := rows st @ [\<lparr>id' = (case i of None \<Rightarrow> next_id st | Some k \<Rightarrow> k),
                                       name = n, price = v, availability = a\<rparr>],
                   writes := writes st @ [Insert_row]\<rparr>,
                \<lparr>status = 201,
                   json = Data \<lparr>id' = (case i of None \<Rightarrow> next_id st | Some k \<Rightarrow> k),
                               name = n, price = v, availability = a\<rparr>\<rparr>)
       \<and> (\<forall>st1 res. createProduct req st = Inr (st1, res) \<longrightarrow>
            snd (getProductById
                   \<lparr>params_id = (case i of None \<Rightarrow> next_id st | Some k \<Rightarrow> k), body = b\<rparr> st1)
              = ok (Data \<lparr>id' = (case i of None \<Rightarrow> next_id st | Some k \<Rightarrow> k),
                          name = n, price = v, availability = a\<rparr>))
       \<and> (n \<noteq> [] \<and> 0 < v \<and> isNumeric (S v) \<longrightarrow> router_post S req st = createProduct req st)"
proof -
  let ?k = "case i of None \<Rightarrow> next_id st | Some k \<Rightarrow> k"
  let ?p = "\<lparr>id' = ?k, name = n, price = v, availability = a\<rparr>"
  let ?st1 = "(case i of None \<Rightarrow> st\<lparr>next_id := next_id st + 1\<rparr> | Some k \<Rightarrow> st)
                \<lparr>rows := rows st @ [?p], writes := writes st @ [Insert_row]\<rparr>"
  have c: "createProduct req st = Inr (?st1, \<lparr>status = 201, json = Data ?p\<rparr>)"
    using assms by (simp add: createProduct_def Product_create_def Let_def)
  have "find (\<lambda>r. id' r = ?k) (rows st @ [?p]) = Some ?p"
    using assms(2) by (intro find_appended) (simp_all add: ids_def)
  then have "findByPk ?k ?st1 = Some ?p"
    by (simp add: findByPk_def split: option.splits)
  then have g: "snd (getProductById \<lparr>params_id = ?k, body = b\<rparr> ?st1) = ok (Data ?p)"
    by (simp add: getProductById_def)
  have r: "n \<noteq> [] \<and> 0 < v \<and> isNumeric (S v) \<longrightarrow> router_post S req st = createProduct req st"
  proof
    assume v: "n \<noteq> [] \<and> 0 < v \<and> isNumeric (S v)"
    then have "S v \<noteq> []" by (auto simp: isNumeric_def)
    with v have "body_name_chain (body req) @ body_price_chain S (body req) = []"
      using assms(1)
      by (simp add: body_name_chain_def body_price_chain_def rule_def notEmpty_def
          toString_name_def toString_price_def custom_price_def)
    then show "router_post S req st = createProduct req st"
      by (simp add: router_post_def handleInputErrors_def)
  qed
  show ?thesis using c g r by simp
qed

theorem create_persists_whole_body_witness:
  "body \<lparr>params_id = 0, body = put_body\<lparr>body_id := Some 50\<rparr>\<rparr> =
     \<lparr>body_id = Some 50, body_name = Some ''Monitor curvo'', body_price = Some 299,
        body_availability = Some False\<rparr>
   \<and> (50::int) \<notin> set (ids shop)
   \<and> router_post (\<lambda>x. ''299'') \<lparr>params_id = 0, body = put_body\<lparr>body_id := Some 50\<rparr>\<rparr> shop =
       Inr (\<lparr>rows = [monitor, \<lparr>id' = 50, name = ''Monitor curvo'', price = 299,
                                availability = False\<rparr>],
             next_id = 2, writes = [Insert_row, Insert_row]\<rparr>,
            \<lparr>status = 201, json = Data \<lparr>id' = 50, name = ''Monitor curvo'', price = 299,
                                       availability = False\<rparr>\<rparr>)
   \<and> snd (getProductById \<lparr>params_id = 50, body = no_body\<rparr>
            \<lparr>rows = [monitor, \<lparr>id' = 50, name = ''Monitor curvo'', price = 299,
                                availability = False\<rparr>],
             next_id = 2, writes = [Insert_row, Insert_row]\<rparr>)
       = ok (Data \<lparr>id' = 50, name = ''Monitor curvo'', price = 299, availability = False\<rparr>)"
proof -
  let ?req = "\<lparr>params_id = 0, body = put_body\<lparr>body_id := Some 50\<rparr>\<rparr>"
  let ?p = "\<lparr>id' = 50, name = ''Monitor curvo'', price = 299, availability = False\<rparr>"
  let ?st1 = "\<lparr>rows = [monitor, ?p], next_id = 2, writes = [Insert_row, Insert_row]\<rparr>"
  have h: "body ?req = \<lparr>body_id = Some 50, body_name = Some ''Monitor curvo'',
                         body_price = Some 299, body_availability = Some False\<rparr>"
    by (simp add: put_body_def)
  have f: "(case Some (50::int) of None \<Rightarrow> next_id shop | Some k \<Rightarrow> k) \<notin> set (ids shop)"
    by (simp add: ids_def shop_def monitor_def)
  have v: "''Monitor curvo'' \<noteq> [] \<and> (0::rat) < 299 \<and> isNumeric ((\<lambda>x::rat. ''299'') 299)"
    by (simp add: isNumeric_def unsigned_numeric_def is_digit_def)
  have s: "shop\<lparr>rows := rows shop @ [?p], writes := writes shop @ [Insert_row]\<rparr> = ?st1"
    by (simp add: shop_def)
  note T = create_persists_whole_body [OF h f, where S = "\<lambda>x. ''299''" and b = no_body,
      simplified option.case]
  from T have A: "createProduct ?req shop =
      Inr (shop\<lparr>rows := rows shop @ [?p], writes := writes shop @ [Insert_row]\<rparr>,
           \<lparr>status = 201, json = Data ?p\<rparr>)"
    by blast
  have c: "createProduct ?req shop = Inr (?st1, \<lparr>status = 201, json = Data ?p\<rparr>)"
    unfolding s [symmetric] by (rule A)
  from T c have g: "snd (getProductById \<lparr>params_id = 50, body = no_body\<rparr> ?st1) = ok (Data ?p)"
    by blast
  from T v have r: "router_post (\<lambda>x. ''299'') ?req shop = createProduct ?req shop" by blast
  from f have "(50::int) \<notin> set (ids shop)" by simp
  with h c r g show ?thesis by simp
qed

section \<open>CORS policy\<close>

text \<open>
  C9, as stated, fails: a request without an origin is accepted although no origin
  is not a member of the allow-list.
\<close>

theorem cors_accepts_missing_origin:
  "corsOptions_origin \<lparr>FRONTEND_URL = Some ''http://localhost:5173'', API_URL = None\<rparr> None
     = Allowed
   \<and> None \<notin> set (allowedOrigins \<lparr>FRONTEND_URL = Some ''http://localhost:5173'', API_URL = None\<rparr>)"
  by (simp add: corsOptions_origin_def allowedOrigins_def truthy_def)

text \<open>
  C9, amended. The check accepts a request if and only if its origin is absent or
  empty, or is a member of the allow-list; a request with a non-empty origin outside
  the allow-list is refused with the error \<open>Error de CORS\<close>. The allow-list holds the
  non-empty ones of the two environment values.
\<close>

theorem cors_accepts_iff:
  "(corsOptions_origin e origin = Allowed)
     = (\<not> truthy origin \<or> origin \<in> set (allowedOrigins e))
   \<and> (truthy origin \<and> origin \<notin> set (allowedOrigins e)
        \<longrightarrow> corsOptions_origin e origin = Refused ''Error de CORS'')
   \<and> (origin \<in> set (allowedOrigins e))
       = (truthy origin \<and> (origin = FRONTEND_URL e \<or> origin = API_URL e))"
  by (auto simp: corsOptions_origin_def allowedOrigins_def)

theorem cors_accepts_iff_witness:
  "truthy (Some ''http://evil.example'')
   \<and> Some ''http://evil.example''
       \<notin> set (allowedOrigins \<lparr>FRONTEND_URL = Some ''http://localhost:5173'', API_URL = Some []\<rparr>)
   \<and> corsOptions_origin \<lparr>FRONTEND_URL = Some ''http://localhost:5173'', API_URL = Some []\<rparr>
        (Some ''http://evil.example'') = Refused ''Error de CORS''
   \<and> corsOptions_origin \<lparr>FRONTEND_URL = Some ''http://localhost:5173'', API_URL = Some []\<rparr>
        (Some ''http://localhost:5173'') = Allowed
   \<and> corsOptions_origin \<lparr>FRONTEND_URL = Some ''http://localhost:5173'', API_URL = Some []\<rparr>
        (Some []) = Allowed"
proof -
  let ?e = "\<lparr>FRONTEND_URL = Some ''http://localhost:5173'', API_URL = Some []\<rparr>"
  have t: "truthy (Some ''http://evil.example'')" by (simp add: truthy_def)
  have m: "Some ''http://evil.example'' \<notin> set (allowedOrigins ?e)"
    by (simp add: allowedOrigins_def truthy_def)
  have f: "truthy (Some ''http://localhost:5173'')" by (simp add: truthy_def)
  have z: "\<not> truthy (Some [])" by (simp add: truthy_def)
  show ?thesis
    using t m f z
      cors_accepts_iff [of ?e "Some ''http://evil.example''"]
      cors_accepts_iff [of ?e "Some ''http://localhost:5173''"]
      cors_accepts_iff [of ?e "Some []"]
    by simp
qed

section \<open>Connecting to the database\<close>

text \<open>
  C10. If \<open>db.authenticate\<close> fails, \<open>connectDB\<close> calls it once, does not start the
  schema synchronization, writes one line with the readable message to the console
  and returns normally: the error is caught, not rethrown.
\<close>

theorem connectDB_failure_is_logged:
  assumes "authenticate db = Inl e"
  shows "connectDB db =
           ([Authenticate,
             ConsoleLog (colors_red_bold ''Hubo un error al conectarse a la base de datos'')],
            Inr ())
       \<and> text_of (colors_red_bold ''Hubo un error al conectarse a la base de datos'')
           = ''Hubo un error al conectarse a la base de datos''"
  using assms
  by (simp add: connectDB_def try_catch_def and_then_def await_authenticate_def
      console_log_def colors_red_bold_def)

theorem connectDB_failure_is_logged_witness:
  "authenticate \<lparr>authenticate = Inl (JsError ''ECONNREFUSED'')\<rparr> = Inl (JsError ''ECONNREFUSED'')
   \<and> connectDB \<lparr>authenticate = Inl (JsError ''ECONNREFUSED'')\<rparr> =
       ([Authenticate,
         ConsoleLog (Red (Bold (Plain ''Hubo un error al conectarse a la base de datos'')))],
        Inr ())"
proof -
  have h: "authenticate \<lparr>authenticate = Inl (JsError ''ECONNREFUSED'')\<rparr>
           = Inl (JsError ''ECONNREFUSED'')"
    by simp
  show ?thesis using h connectDB_failure_is_logged [OF h] by (simp add: colors_red_bold_def)
qed

end
